theory Spec2Isabelle
  imports Main
begin

section \<open>JavaScript strings\<close>

text \<open>
  A JavaScript string is a sequence of UTF-16 code units.  A code unit is modelled as a
  natural number and a string as a list of them, so that the non-ASCII characters the
  source depends on (the bullet U+2022 of \<open>parseTranslations\<close>, the line and paragraph
  separators U+2028 and U+2029 that the regular expression dot refuses, the Unicode
  spaces that \<open>trim\<close> removes) are all present in the model.
\<close>

type_synonym jsstring = "nat list"

definition lit :: "string \<Rightarrow> jsstring" where
  "lit s = map of_char s"

definition LF :: nat where "LF = 10"
definition TAB :: nat where "TAB = 9"
definition CR :: nat where "CR = 13"
definition DQUOTE :: nat where "DQUOTE = 34"
definition SQUOTE :: nat where "SQUOTE = 39"
definition BACKSLASH :: nat where "BACKSLASH = 92"
definition COLON :: nat where "COLON = 58"
definition SPACE :: nat where "SPACE = 32"

text \<open>The characters removed by \<open>String.prototype.trim\<close> and matched by \<open>\s\<close>:
  WhiteSpace and LineTerminator of the ECMAScript grammar.\<close>

definition isWhiteSpace :: "nat \<Rightarrow> bool" where
  "isWhiteSpace c \<longleftrightarrow>
     c = 0x9 \<or> c = 0xA \<or> c = 0xB \<or> c = 0xC \<or> c = 0xD \<or> c = 0x20 \<or> c = 0xA0
     \<or> c = 0x1680 \<or> (0x2000 \<le> c \<and> c \<le> 0x200A) \<or> c = 0x2028 \<or> c = 0x2029
     \<or> c = 0x202F \<or> c = 0x205F \<or> c = 0x3000 \<or> c = 0xFEFF"

text \<open>The characters that the regular expression dot does not match.\<close>

definition isLineTerminator :: "nat \<Rightarrow> bool" where
  "isLineTerminator c \<longleftrightarrow> c = 0xA \<or> c = 0xD \<or> c = 0x2028 \<or> c = 0x2029"

text \<open>The characters matched by \<open>\d\<close>.\<close>

definition isDigit :: "nat \<Rightarrow> bool" where
  "isDigit c \<longleftrightarrow> 48 \<le> c \<and> c \<le> 57"

definition trim :: "jsstring \<Rightarrow> jsstring" where
  "trim s = rev (dropWhile isWhiteSpace (rev (dropWhile isWhiteSpace s)))"

definition startsWith :: "jsstring \<Rightarrow> jsstring \<Rightarrow> bool" where
  "startsWith s p \<longleftrightarrow> take (length p) s = p"

definition endsWith :: "jsstring \<Rightarrow> jsstring \<Rightarrow> bool" where
  "endsWith s p \<longleftrightarrow> length p \<le> length s \<and> drop (length s - length p) s = p"

text \<open>\<open>s.slice(n)\<close> for a non-negative \<open>n\<close>, \<open>s.slice(0, n)\<close> and \<open>s.slice(1, -1)\<close>.\<close>

definition slice_from :: "nat \<Rightarrow> jsstring \<Rightarrow> jsstring" where
  "slice_from n s = drop n s"

definition slice_to :: "nat \<Rightarrow> jsstring \<Rightarrow> jsstring" where
  "slice_to n s = take n s"

definition slice_inner :: "jsstring \<Rightarrow> jsstring" where
  "slice_inner s = take (length s - 1 - 1) (drop 1 s)"

text \<open>\<open>s.split('\n')\<close>: the empty string gives one empty piece.\<close>

fun split_nl :: "jsstring \<Rightarrow> jsstring list" where
  "split_nl [] = [[]]"
| "split_nl (c # cs) =
     (if c = LF then [] # split_nl cs
      else (case split_nl cs of
              [] \<Rightarrow> [[c]]
            | l # ls \<Rightarrow> (c # l) # ls))"

text \<open>\<open>xs.join(sep)\<close>.\<close>

fun join :: "jsstring \<Rightarrow> jsstring list \<Rightarrow> jsstring" where
  "join sep [] = []"
| "join sep [x] = x"
| "join sep (x # y # ys) = x @ sep @ join sep (y # ys)"

text \<open>\<open>s.indexOf(c)\<close> for a single character: \<open>-1\<close> when it is absent.\<close>

fun indexOf_from :: "nat \<Rightarrow> jsstring \<Rightarrow> nat \<Rightarrow> int" where
  "indexOf_from c [] i = - 1"
| "indexOf_from c (x # xs) i = (if x = c then int i else indexOf_from c xs (Suc i))"

definition indexOf :: "jsstring \<Rightarrow> nat \<Rightarrow> int" where
  "indexOf s c = indexOf_from c s 0"

text \<open>Global replacement of a one-character pattern and of a two-character pattern
  (leftmost, non-overlapping matches, as \<open>replace\<close> with a \<open>/g\<close> regular expression).\<close>

definition replace1 :: "nat \<Rightarrow> jsstring \<Rightarrow> jsstring \<Rightarrow> jsstring" where
  "replace1 a r s = concat (map (\<lambda>c. if c = a then r else [c]) s)"

fun replace2 :: "nat \<Rightarrow> nat \<Rightarrow> jsstring \<Rightarrow> jsstring \<Rightarrow> jsstring" where
  "replace2 a b r (x # y # zs) =
     (if x = a \<and> y = b then r @ replace2 a b r zs else x # replace2 a b r (y # zs))"
| "replace2 a b r [x] = [x]"
| "replace2 a b r [] = []"

section \<open>The PO parser (poParser.ts)\<close>

datatype status = Pending | Translated | AiSuggested

record TranslationEntry =
  e_id :: jsstring
  e_msgid :: jsstring
  e_msgstr :: jsstring
  e_context :: "jsstring option"
  e_comments :: "jsstring option"
  e_status :: status

text \<open>\<open>Record<string, string>\<close>: the own properties of the object, in the order in which
  they were created.  An assignment to an existing key replaces its value in place, an
  assignment to a new key creates the property at the end.\<close>

type_synonym headers = "(jsstring \<times> jsstring) list"

fun put_property :: "jsstring \<Rightarrow> jsstring \<Rightarrow> headers \<Rightarrow> headers" where
  "put_property k v [] = [(k, v)]"
| "put_property k v ((k', v') # hs) =
     (if k' = k then (k, v) # hs else (k', v') # put_property k v hs)"

text \<open>\<open>headers[key] = value\<close> on an object created by \<open>{}\<close>.  The key \<open>__proto__\<close> is the one
  key that the object inherits as a setter from \<open>Object.prototype\<close>: the assignment calls the
  setter, which ignores a value that is a string, and no property is created.\<close>

definition set_header :: "jsstring \<Rightarrow> jsstring \<Rightarrow> headers \<Rightarrow> headers" where
  "set_header k v hs = (if k = lit ''__proto__'' then hs else put_property k v hs)"

text \<open>\<open>Object.entries\<close>: the keys that are array indices (canonical decimal numerals below
  \<open>2^32 - 1 = 4294967295\<close>) come first, in ascending numeric order, then the other keys in the order of
  their creation.\<close>

definition index_value :: "jsstring \<Rightarrow> nat" where
  "index_value k = foldl (\<lambda>n c. 10 * n + (c - 48)) 0 k"

definition isArrayIndex :: "jsstring \<Rightarrow> bool" where
  "isArrayIndex k \<longleftrightarrow>
     k \<noteq> [] \<and> list_all isDigit k \<and> (length k = 1 \<or> hd k \<noteq> 48)
     \<and> index_value k < 4294967295"

definition Object_entries :: "headers \<Rightarrow> (jsstring \<times> jsstring) list" where
  "Object_entries hs =
     sort_key (\<lambda>kv. index_value (fst kv)) (filter (\<lambda>kv. isArrayIndex (fst kv)) hs)
     @ filter (\<lambda>kv. \<not> isArrayIndex (fst kv)) hs"

record ParsedPO =
  headers :: headers
  entries :: "TranslationEntry list"

record RawEntry =
  r_msgid :: jsstring
  r_msgstr :: jsstring
  r_context :: "jsstring option"
  r_comments :: "jsstring option"

subsection \<open>extractString\<close>

text \<open>\<open>quoted.match(/^"(.*)"$/)\<close>: the whole string is a double quote, a payload without
  line terminators, and a double quote.  The result is the payload, or \<open>None\<close> for
  \<open>null\<close>.\<close>

definition match_quoted :: "jsstring \<Rightarrow> jsstring option" where
  "match_quoted quoted =
     (if 2 \<le> length quoted \<and> hd quoted = DQUOTE \<and> last quoted = DQUOTE
         \<and> \<not> list_ex isLineTerminator (slice_inner quoted)
      then Some (slice_inner quoted) else None)"

definition unescape :: "jsstring \<Rightarrow> jsstring" where
  "unescape p =
     replace2 BACKSLASH BACKSLASH [BACKSLASH]
       (replace2 BACKSLASH DQUOTE [DQUOTE]
         (replace2 BACKSLASH (of_char CHR ''r'') [CR]
           (replace2 BACKSLASH (of_char CHR ''t'') [TAB]
             (replace2 BACKSLASH (of_char CHR ''n'') [LF] p))))"

definition extractString :: "jsstring \<Rightarrow> jsstring" where
  "extractString quoted =
     (case match_quoted quoted of
        None \<Rightarrow> quoted
      | Some p \<Rightarrow> unescape p)"

text \<open>\<open>x || undefined\<close> on a string (the empty string is falsy) and \<open>x || ''\<close> on
  an optional string.\<close>

definition or_undefined :: "jsstring \<Rightarrow> jsstring option" where
  "or_undefined s = (if s = [] then None else Some s)"

definition or_empty :: "jsstring option \<Rightarrow> jsstring" where
  "or_empty c = (case c of None \<Rightarrow> [] | Some x \<Rightarrow> x)"

subsection \<open>parseBlock\<close>

datatype field = F_msgid | F_msgstr | F_msgctxt

record block_state =
  msgid :: jsstring
  msgstr :: jsstring
  ctxt :: "jsstring option"
  comments :: jsstring
  currentField :: "field option"

definition init_block_state :: block_state where
  "init_block_state =
     \<lparr>msgid = [], msgstr = [], ctxt = None, comments = [], currentField = None\<rparr>"

text \<open>One iteration of the loop over the lines of a block.\<close>

definition parseBlock_line :: "block_state \<Rightarrow> jsstring \<Rightarrow> block_state" where
  "parseBlock_line st line =
     (let trimmed = trim line in
      if trimmed = [] then st
      else if startsWith trimmed (lit ''#'') then
        (if startsWith trimmed (lit ''#.'') then
           st\<lparr>comments := comments st @ trim (slice_from 2 trimmed) @ [SPACE]\<rparr>
         else if startsWith trimmed (lit ''#:'') then
           st\<lparr>comments := comments st @ trim (slice_from 2 trimmed) @ [SPACE]\<rparr>
         else st)
      else if startsWith trimmed (lit ''msgctxt '') then
        st\<lparr>ctxt := Some (extractString (slice_from 8 trimmed)),
           currentField := Some F_msgctxt\<rparr>
      else if startsWith trimmed (lit ''msgid '') then
        st\<lparr>msgid := extractString (slice_from 6 trimmed),
           currentField := Some F_msgid\<rparr>
      else if startsWith trimmed (lit ''msgstr '') then
        st\<lparr>msgstr := extractString (slice_from 7 trimmed),
           currentField := Some F_msgstr\<rparr>
      else if startsWith trimmed [DQUOTE] \<and> endsWith trimmed [DQUOTE] then
        (let continued = extractString trimmed in
         case currentField st of
           Some F_msgid \<Rightarrow> st\<lparr>msgid := msgid st @ continued\<rparr>
         | Some F_msgstr \<Rightarrow> st\<lparr>msgstr := msgstr st @ continued\<rparr>
         | Some F_msgctxt \<Rightarrow>
             st\<lparr>ctxt := Some (or_empty (ctxt st) @ continued)\<rparr>
         | None \<Rightarrow> st)
      else st)"

text \<open>The declared result type is \<open>RawEntry | null\<close>; \<open>None\<close> stands for \<open>null\<close>.\<close>

definition parseBlock :: "jsstring \<Rightarrow> RawEntry option" where
  "parseBlock block =
     (let st = foldl parseBlock_line init_block_state (split_nl block) in
      Some \<lparr>r_msgid = msgid st, r_msgstr = msgstr st, r_context = ctxt st,
            r_comments = or_undefined (trim (comments st))\<rparr>)"

subsection \<open>parseHeaders\<close>

definition parseHeaders_line :: "headers \<Rightarrow> jsstring \<Rightarrow> headers" where
  "parseHeaders_line hs line =
     (let colonIdx = indexOf line COLON in
      if colonIdx > 0 then
        set_header (trim (slice_to (nat colonIdx) line))
                   (trim (slice_from (nat (colonIdx + 1)) line)) hs
      else hs)"

definition parseHeaders :: "jsstring \<Rightarrow> headers \<Rightarrow> headers" where
  "parseHeaders headerStr hs = foldl parseHeaders_line hs (split_nl headerStr)"

subsection \<open>parsePOFile\<close>

text \<open>\<open>content.replace(/\r\n/g, '\n').replace(/\r/g, '\n')\<close>.\<close>

definition normalize :: "jsstring \<Rightarrow> jsstring" where
  "normalize content = replace1 CR [LF] (replace2 CR LF [LF] content)"

text \<open>\<open>s.split(/\n\n+/)\<close>: the separators are the maximal runs of two or more line feeds.\<close>

function split_blocks :: "jsstring \<Rightarrow> jsstring list" where
  "split_blocks [] = [[]]"
| "split_blocks (c # cs) =
     (if c = LF \<and> startsWith cs [LF] then [] # split_blocks (dropWhile (\<lambda>x. x = LF) cs)
      else (case split_blocks cs of
              [] \<Rightarrow> [[c]]
            | b # bs \<Rightarrow> (c # b) # bs))"
  by pat_completeness auto
termination
  by (relation "measure length") (auto simp: le_imp_less_Suc length_dropWhile_le)

text \<open>The template literal \<open>`${entry.context || ''}_${entry.msgid}`\<close>.\<close>

definition make_id :: "jsstring option \<Rightarrow> jsstring \<Rightarrow> jsstring" where
  "make_id c m = or_empty c @ lit ''_'' @ m"

definition make_entry :: "RawEntry \<Rightarrow> TranslationEntry" where
  "make_entry entry =
     \<lparr>e_id = make_id (r_context entry) (r_msgid entry),
      e_msgid = r_msgid entry,
      e_msgstr = r_msgstr entry,
      e_context = r_context entry,
      e_comments = r_comments entry,
      e_status = (if r_msgstr entry \<noteq> [] then Translated else Pending)\<rparr>"

text \<open>One iteration of the loop over the blocks.\<close>

definition parsePOFile_block :: "ParsedPO \<Rightarrow> jsstring \<Rightarrow> ParsedPO" where
  "parsePOFile_block acc block =
     (if trim block = [] then acc
      else (case parseBlock block of
              None \<Rightarrow> acc
            | Some entry \<Rightarrow>
                if r_msgid entry = [] then
                  acc\<lparr>headers := parseHeaders (r_msgstr entry) (headers acc)\<rparr>
                else
                  acc\<lparr>entries := entries acc @ [make_entry entry]\<rparr>))"

definition parsePOFile :: "jsstring \<Rightarrow> ParsedPO" where
  "parsePOFile content =
     foldl parsePOFile_block \<lparr>headers = [], entries = []\<rparr>
       (split_blocks (normalize content))"

subsection \<open>generatePOFile\<close>

definition escapeString :: "jsstring \<Rightarrow> jsstring" where
  "escapeString str =
     [DQUOTE] @
     replace1 CR (BACKSLASH # lit ''r'')
       (replace1 TAB (BACKSLASH # lit ''t'')
         (replace1 LF (BACKSLASH # lit ''n'')
           (replace1 DQUOTE [BACKSLASH, DQUOTE]
             (replace1 BACKSLASH [BACKSLASH, BACKSLASH] str))))
     @ [DQUOTE]"

definition header_line :: "jsstring \<times> jsstring \<Rightarrow> jsstring" where
  "header_line kv = [DQUOTE] @ fst kv @ lit '': '' @ snd kv @ BACKSLASH # lit ''n'' @ [DQUOTE]"

definition entry_lines :: "TranslationEntry \<Rightarrow> jsstring list" where
  "entry_lines entry =
     (case e_comments entry of
        Some c \<Rightarrow> if c \<noteq> [] then [lit ''#. '' @ c] else []
      | None \<Rightarrow> [])
     @ (case e_context entry of
          Some c \<Rightarrow> if c \<noteq> [] then [lit ''msgctxt '' @ escapeString c] else []
        | None \<Rightarrow> [])
     @ [lit ''msgid '' @ escapeString (e_msgid entry),
        lit ''msgstr '' @ escapeString (e_msgstr entry),
        []]"

definition generatePOFile :: "ParsedPO \<Rightarrow> jsstring" where
  "generatePOFile data =
     (let headerLines = join [LF] (map header_line (Object_entries (headers data))) in
      join [LF]
        ([lit ''# Translation File'',
          lit ''msgid '' @ [DQUOTE, DQUOTE],
          lit ''msgstr '' @ [DQUOTE, DQUOTE]]
         @ (if headerLines \<noteq> [] then [headerLines] else [])
         @ [[]]
         @ concat (map entry_lines (entries data))))"

section \<open>The suggestion post-processor (aiService.ts)\<close>

text \<open>\<open>line.replace(/^\d+[\.\)]\s*/, '')\<close>: one or more digits, a dot or a closing
  parenthesis, and the white space after it are removed from the start of the line.\<close>

definition strip_numbering :: "jsstring \<Rightarrow> jsstring" where
  "strip_numbering line =
     (case dropWhile isDigit line of
        [] \<Rightarrow> line
      | c # rest \<Rightarrow>
          if takeWhile isDigit line \<noteq> [] \<and> (c = of_char CHR ''.'' \<or> c = of_char CHR '')'')
          then dropWhile isWhiteSpace rest else line)"

text \<open>\<open>line.replace(/^[-\<bullet>*]\s*/, '')\<close>; the bullet is U+2022.\<close>

definition strip_bullet :: "jsstring \<Rightarrow> jsstring" where
  "strip_bullet line =
     (case line of
        [] \<Rightarrow> []
      | c # rest \<Rightarrow>
          if c = of_char CHR ''-'' \<or> c = 0x2022 \<or> c = of_char CHR ''*''
          then dropWhile isWhiteSpace rest else line)"

definition clean_line :: "jsstring \<Rightarrow> jsstring" where
  "clean_line line =
     (let cleaned = trim (strip_bullet (strip_numbering line)) in
      if (startsWith cleaned [DQUOTE] \<and> endsWith cleaned [DQUOTE])
         \<or> (startsWith cleaned [SQUOTE] \<and> endsWith cleaned [SQUOTE])
      then slice_inner cleaned else cleaned)"

definition parseTranslations :: "jsstring \<Rightarrow> jsstring list" where
  "parseTranslations content =
     take 3 (filter (\<lambda>line. length line > 0) (map clean_line (split_nl content)))"

section \<open>The editor state (App.tsx)\<close>

record app_state =
  poData :: "ParsedPO option"
  selectedEntry :: "TranslationEntry option"

text \<open>\<open>{ ...entry, msgstr: newMsgstr, status: newMsgstr ? 'translated' : 'pending' }\<close>.\<close>

definition with_translation :: "TranslationEntry \<Rightarrow> jsstring \<Rightarrow> TranslationEntry" where
  "with_translation entry newMsgstr =
     entry\<lparr>e_msgstr := newMsgstr,
           e_status := (if newMsgstr \<noteq> [] then Translated else Pending)\<rparr>"

definition updateTranslation :: "app_state \<Rightarrow> jsstring \<Rightarrow> jsstring \<Rightarrow> app_state" where
  "updateTranslation st ident newMsgstr =
     (case poData st of
        None \<Rightarrow> st
      | Some pd \<Rightarrow>
          \<lparr>poData = Some (pd\<lparr>entries :=
                       map (\<lambda>entry. if e_id entry = ident
                                     then with_translation entry newMsgstr else entry)
                           (entries pd)\<rparr>),
           selectedEntry =
             (case selectedEntry st of
                None \<Rightarrow> None
              | Some sel \<Rightarrow>
                  if e_id sel = ident then Some (with_translation sel newMsgstr)
                  else Some sel)\<rparr>)"

section \<open>Notions used in the statements\<close>

text \<open>The blocks that the loop of \<open>parsePOFile\<close> does not skip, the raw records that
  \<open>parseBlock\<close> extracts from them, and the \<open>msgstr\<close> values of the records with an empty
  \<open>msgid\<close>, which are the strings handed to \<open>parseHeaders\<close>.\<close>

definition retained_blocks :: "jsstring \<Rightarrow> jsstring list" where
  "retained_blocks content = filter (\<lambda>b. trim b \<noteq> []) (split_blocks (normalize content))"

definition raw_entries :: "jsstring \<Rightarrow> RawEntry list" where
  "raw_entries content = List.map_filter parseBlock (retained_blocks content)"

definition header_strings :: "jsstring \<Rightarrow> jsstring list" where
  "header_strings content = map r_msgstr (filter (\<lambda>r. r_msgid r = []) (raw_entries content))"

text \<open>The comment lines that add to the comment buffer of \<open>parseBlock\<close>, and what each of
  them adds before the separating space.\<close>

definition is_contributing :: "jsstring \<Rightarrow> bool" where
  "is_contributing line \<longleftrightarrow>
     startsWith (trim line) (lit ''#.'') \<or> startsWith (trim line) (lit ''#:'')"

definition comment_payloads :: "jsstring \<Rightarrow> jsstring list" where
  "comment_payloads block =
     map (\<lambda>line. trim (slice_from 2 (trim line))) (filter is_contributing (split_nl block))"

text \<open>What \<open>escapeString\<close> writes for one character, when the characters of \<open>E\<close> are the
  ones still escaped; and the characters of a string that come right after a backslash.\<close>

definition esc_token :: "nat set \<Rightarrow> nat \<Rightarrow> jsstring" where
  "esc_token E c =
     (if c \<in> E then
        (if c = BACKSLASH then [BACKSLASH, BACKSLASH]
         else if c = DQUOTE then [BACKSLASH, DQUOTE]
         else if c = LF then BACKSLASH # lit ''n''
         else if c = TAB then BACKSLASH # lit ''t''
         else BACKSLASH # lit ''r'')
      else [c])"

fun after_backslash :: "jsstring \<Rightarrow> nat set" where
  "after_backslash (x # y # zs) =
     (if x = BACKSLASH then {y} else {}) \<union> after_backslash (y # zs)"
| "after_backslash [x] = {}"
| "after_backslash [] = {}"

section \<open>Example inputs\<close>

text \<open>Two entries with the same \<open>msgid\<close>, the second one under the context \<open>menu\<close>.\<close>

definition two_entries_input :: jsstring where
  "two_entries_input =
     lit ''msgid '' @ [DQUOTE] @ lit ''Hello'' @ [DQUOTE, LF] @
     lit ''msgstr '' @ [DQUOTE] @ lit ''Hola'' @ [DQUOTE, LF, LF] @
     lit ''msgctxt '' @ [DQUOTE] @ lit ''menu'' @ [DQUOTE, LF] @
     lit ''msgid '' @ [DQUOTE] @ lit ''Hello'' @ [DQUOTE, LF] @
     lit ''msgstr '' @ [DQUOTE, DQUOTE, LF]"

definition hello_plain :: TranslationEntry where
  "hello_plain = \<lparr>e_id = lit ''_Hello'', e_msgid = lit ''Hello'', e_msgstr = lit ''Hola'',
     e_context = None, e_comments = None, e_status = Translated\<rparr>"

definition hello_menu :: TranslationEntry where
  "hello_menu = \<lparr>e_id = lit ''menu_Hello'', e_msgid = lit ''Hello'', e_msgstr = [],
     e_context = Some (lit ''menu''), e_comments = None, e_status = Pending\<rparr>"

text \<open>An entry with the empty context followed by the same entry without a context.\<close>

definition empty_context_input :: jsstring where
  "empty_context_input =
     lit ''msgctxt '' @ [DQUOTE, DQUOTE, LF] @
     lit ''msgid '' @ [DQUOTE] @ lit ''a'' @ [DQUOTE, LF] @
     lit ''msgstr '' @ [DQUOTE, DQUOTE, LF, LF] @
     lit ''msgid '' @ [DQUOTE] @ lit ''a'' @ [DQUOTE, LF] @
     lit ''msgstr '' @ [DQUOTE, DQUOTE]"

definition a_empty_context :: TranslationEntry where
  "a_empty_context = \<lparr>e_id = lit ''_a'', e_msgid = lit ''a'', e_msgstr = [],
     e_context = Some [], e_comments = None, e_status = Pending\<rparr>"

definition a_no_context :: TranslationEntry where
  "a_no_context = \<lparr>e_id = lit ''_a'', e_msgid = lit ''a'', e_msgstr = [],
     e_context = None, e_comments = None, e_status = Pending\<rparr>"

text \<open>A provider response with numbering, quotes, a blank line and bullets.\<close>

definition suggestions_input :: jsstring where
  "suggestions_input =
     lit ''1. Hola'' @ [LF] @
     lit ''2) '' @ [DQUOTE] @ lit ''Buenas'' @ [DQUOTE, LF, LF] @
     lit ''- x'' @ [LF] @
     [0x2022] @ lit '' y''"

text \<open>A backslash followed by the letter \<open>n\<close>, as in a Windows path to a folder \<open>new\<close>.\<close>

definition backslash_n :: jsstring where
  "backslash_n = BACKSLASH # lit ''n''"

text \<open>A header block whose value is two backslashes followed by \<open>srv\<close>, written in the file
  with each backslash doubled, and the text that \<open>generatePOFile\<close> produces for it.\<close>

definition header_backslash_input :: jsstring where
  "header_backslash_input =
     lit ''msgid '' @ [DQUOTE, DQUOTE, LF] @
     lit ''msgstr '' @ [DQUOTE, DQUOTE, LF] @
     [DQUOTE] @ lit ''X-Source: '' @ [BACKSLASH, BACKSLASH, BACKSLASH, BACKSLASH] @ lit ''srv''
       @ [BACKSLASH] @ lit ''n'' @ [DQUOTE, LF]"

definition header_backslash_output :: jsstring where
  "header_backslash_output =
     lit ''# Translation File'' @ [LF] @
     lit ''msgid '' @ [DQUOTE, DQUOTE, LF] @
     lit ''msgstr '' @ [DQUOTE, DQUOTE, LF] @
     [DQUOTE] @ lit ''X-Source: '' @ [BACKSLASH, BACKSLASH] @ lit ''srv''
       @ [BACKSLASH] @ lit ''n'' @ [DQUOTE, LF]"

text \<open>A \<open>msgid\<close> whose first line ends in an escaped backslash and whose continuation line
  starts with the letter \<open>n\<close>.\<close>

definition continuation_input :: jsstring where
  "continuation_input =
     lit ''msgid '' @ [DQUOTE] @ lit ''C:'' @ [BACKSLASH, BACKSLASH, DQUOTE, LF] @
     [DQUOTE] @ lit ''new'' @ [DQUOTE, LF] @
     lit ''msgstr '' @ [DQUOTE, DQUOTE]"


text \<open>A header block, an entry block with four kinds of comment lines, and a second
  header block that defines \<open>Language\<close> again.\<close>

definition header_block :: jsstring where
  "header_block =
     lit ''msgid '' @ [DQUOTE, DQUOTE, LF] @
     lit ''msgstr '' @ [DQUOTE, DQUOTE, LF] @
     [DQUOTE] @ lit ''Language: es'' @ [BACKSLASH] @ lit ''n'' @ [DQUOTE, LF] @
     [DQUOTE] @ lit ''X-Generator: vi'' @ [BACKSLASH] @ lit ''n'' @ [DQUOTE]"

definition second_header_block :: jsstring where
  "second_header_block =
     lit ''msgid '' @ [DQUOTE, DQUOTE, LF] @
     lit ''msgstr '' @ [DQUOTE] @ lit ''Language: fr'' @ [BACKSLASH] @ lit ''n'' @ [DQUOTE]"

definition entry_block :: jsstring where
  "entry_block =
     lit ''#, fuzzy'' @ [LF] @
     lit ''#. Greeting'' @ [LF] @
     lit ''# translator note'' @ [LF] @
     lit ''#: src/app.c:10'' @ [LF] @
     lit ''msgid '' @ [DQUOTE] @ lit ''Hello'' @ [DQUOTE, LF] @
     lit ''msgstr '' @ [DQUOTE] @ lit ''Hola'' @ [DQUOTE]"


definition header_raw :: RawEntry where
  "header_raw = \<lparr>r_msgid = [], r_msgstr = lit ''Language: es'' @ [LF] @ lit ''X-Generator: vi'' @ [LF],
     r_context = None, r_comments = None\<rparr>"

definition entry_raw :: RawEntry where
  "entry_raw = \<lparr>r_msgid = lit ''Hello'', r_msgstr = lit ''Hola'',
     r_context = None, r_comments = Some (lit ''Greeting src/app.c:10'')\<rparr>"

definition some_catalog :: ParsedPO where
  "some_catalog = \<lparr>headers = [(lit ''Language'', lit ''de'')], entries = [hello_menu]\<rparr>"


section \<open>Evaluation on the examples\<close>

lemmas eval_simps =
  lit_def LF_def TAB_def CR_def DQUOTE_def SQUOTE_def BACKSLASH_def COLON_def SPACE_def
  isWhiteSpace_def isLineTerminator_def isDigit_def trim_def startsWith_def endsWith_def
  slice_from_def slice_to_def slice_inner_def indexOf_def replace1_def
  match_quoted_def unescape_def extractString_def init_block_state_def parseBlock_line_def
  or_undefined_def or_empty_def parseBlock_def parseHeaders_line_def parseHeaders_def
  set_header_def index_value_def isArrayIndex_def Object_entries_def
  normalize_def make_id_def make_entry_def parsePOFile_block_def parsePOFile_def
  escapeString_def header_line_def entry_lines_def generatePOFile_def Let_def

lemma two_entries_parsed:
  "parsePOFile two_entries_input = \<lparr>headers = [], entries = [hello_plain, hello_menu]\<rparr>"
  by (simp add: two_entries_input_def hello_plain_def hello_menu_def eval_simps)

lemma header_block_raw: "parseBlock header_block = Some header_raw"
  by (simp add: header_block_def header_raw_def eval_simps)

lemma entry_block_raw: "parseBlock entry_block = Some entry_raw"
  by (simp add: entry_block_def entry_raw_def eval_simps)

section \<open>The loop over the blocks\<close>

lemma entries_block_cases:
  "entries (parsePOFile_block acc b) = entries acc \<or>
   (\<exists>r. r_msgid r \<noteq> [] \<and> parseBlock b = Some r \<and>
        entries (parsePOFile_block acc b) = entries acc @ [make_entry r])"
  by (auto simp: parsePOFile_block_def split: option.splits)

lemma entries_foldl_all:
  assumes "\<And>r. r_msgid r \<noteq> [] \<Longrightarrow> P (make_entry r)"
  shows "list_all P (entries acc) \<Longrightarrow> list_all P (entries (foldl parsePOFile_block acc bs))"
proof (induction bs arbitrary: acc)
  case Nil
  then show ?case by simp
next
  case (Cons b bs)
  have "list_all P (entries (parsePOFile_block acc b))"
    using entries_block_cases [of acc b] Cons.prems assms by auto
  then show ?case using Cons.IH by simp
qed

lemma entries_parsePOFile_all:
  assumes "\<And>r. r_msgid r \<noteq> [] \<Longrightarrow> P (make_entry r)"
  shows "list_all P (entries (parsePOFile content))"
  unfolding parsePOFile_def
  using entries_foldl_all [where P = P and acc = "\<lparr>headers = [], entries = []\<rparr>"] assms
  by simp

lemma headers_foldl_blocks:
  "headers (foldl parsePOFile_block acc bs) =
     foldl (\<lambda>h m. parseHeaders m h) (headers acc)
       (map r_msgstr (filter (\<lambda>r. r_msgid r = [])
          (List.map_filter parseBlock (filter (\<lambda>b. trim b \<noteq> []) bs))))"
  by (induction bs arbitrary: acc)
     (auto simp: parsePOFile_block_def split: option.splits)

lemma entries_foldl_blocks:
  "entries (foldl parsePOFile_block acc bs) =
     entries acc @ map make_entry (filter (\<lambda>r. r_msgid r \<noteq> [])
          (List.map_filter parseBlock (filter (\<lambda>b. trim b \<noteq> []) bs)))"
  by (induction bs arbitrary: acc)
     (auto simp: parsePOFile_block_def split: option.splits)

lemma headers_parsePOFile:
  "headers (parsePOFile content) = foldl (\<lambda>h m. parseHeaders m h) [] (header_strings content)"
  by (simp add: parsePOFile_def headers_foldl_blocks header_strings_def raw_entries_def
      retained_blocks_def)

lemma entries_parsePOFile:
  "entries (parsePOFile content) =
     map make_entry (filter (\<lambda>r. r_msgid r \<noteq> []) (raw_entries content))"
  by (simp add: parsePOFile_def entries_foldl_blocks raw_entries_def retained_blocks_def)



section \<open>Round trip through the generator\<close>

text \<open>Claim C1: for every catalog \<open>M\<close> returned by \<open>parsePOFile\<close>, parsing the text that
  \<open>generatePOFile\<close> writes for \<open>M\<close> gives \<open>M\<close> again.  The code does not do this: the
  generator writes header keys and values as they are, while \<open>escapeString\<close> is applied to
  the fields of the entries, and the parser unescapes every quoted line.  A header value
  with two backslashes comes back with one.\<close>

theorem generatePOFile_roundtrip_header_backslash:
  "parsePOFile header_backslash_input =
     \<lparr>headers = [(lit ''X-Source'', [BACKSLASH, BACKSLASH] @ lit ''srv'')], entries = []\<rparr> \<and>
   generatePOFile (parsePOFile header_backslash_input) = header_backslash_output \<and>
   parsePOFile (generatePOFile (parsePOFile header_backslash_input)) =
     \<lparr>headers = [(lit ''X-Source'', [BACKSLASH] @ lit ''srv'')], entries = []\<rparr> \<and>
   parsePOFile (generatePOFile (parsePOFile header_backslash_input))
     \<noteq> parsePOFile header_backslash_input"
  by (simp add: header_backslash_input_def header_backslash_output_def eval_simps)

text \<open>Two more catalogs returned by \<open>parsePOFile\<close> that do not survive the round trip: an
  empty context is not written at all, and a backslash followed by \<open>n\<close> (which the parser
  yields when the two characters come from different lines) is read back as a backslash
  followed by a line feed.\<close>

lemma generatePOFile_roundtrip_empty_context:
  "entries (parsePOFile empty_context_input) = [a_empty_context, a_no_context] \<and>
   entries (parsePOFile (generatePOFile (parsePOFile empty_context_input)))
     = [a_no_context, a_no_context]"
  by (simp add: empty_context_input_def a_empty_context_def a_no_context_def eval_simps)

lemma generatePOFile_roundtrip_continuation:
  "map e_msgid (entries (parsePOFile continuation_input)) = [lit ''C:'' @ [BACKSLASH] @ lit ''new''] \<and>
   map e_msgid (entries (parsePOFile (generatePOFile (parsePOFile continuation_input))))
     = [lit ''C:'' @ [BACKSLASH, LF] @ lit ''ew'']"
  by (simp add: continuation_input_def eval_simps)

section \<open>Escaping and unescaping\<close>

text \<open>Claim C2: \<open>extractString (escapeString s) = s\<close> for every string of printable text,
  backslashes, double quotes, line feeds, tabs and carriage returns.  The code does not do
  this: \<open>extractString\<close> undoes the escapes in five passes and replaces the doubled backslash
  last, so in the escaped form of a backslash followed by \<open>n\<close> the second backslash and the
  \<open>n\<close> are taken for an escaped line feed.\<close>

theorem extractString_escapeString_backslash_n:
  "escapeString backslash_n = [DQUOTE, BACKSLASH, BACKSLASH] @ lit ''n'' @ [DQUOTE] \<and>
   extractString (escapeString backslash_n) = [BACKSLASH, LF] \<and>
   extractString (escapeString backslash_n) \<noteq> backslash_n"
  by (simp add: backslash_n_def eval_simps)

text \<open>The defect is confined to a backslash that is followed by one of the letters \<open>n\<close>,
  \<open>t\<close> and \<open>r\<close>: for every other string without a line or paragraph separator the five
  passes do invert \<open>escapeString\<close>.\<close>

lemmas char_defs = lit_def DQUOTE_def LF_def TAB_def CR_def BACKSLASH_def

lemma escape_tokens:
  "replace1 CR (BACKSLASH # lit ''r'')
       (replace1 TAB (BACKSLASH # lit ''t'')
         (replace1 LF (BACKSLASH # lit ''n'')
           (replace1 DQUOTE [BACKSLASH, DQUOTE]
             (replace1 BACKSLASH [BACKSLASH, BACKSLASH] s))))
     = concat (map (esc_token {BACKSLASH, DQUOTE, LF, TAB, CR}) s)"
  by (induction s) (auto simp: replace1_def esc_token_def char_defs)

lemma replace2_skip: "x \<noteq> a \<Longrightarrow> replace2 a b r (x # xs) = x # replace2 a b r xs"
  by (cases xs) simp_all

lemma replace2_lone:
  "xs = [] \<or> hd xs \<noteq> b \<Longrightarrow> replace2 a b r (a # xs) = a # replace2 a b r xs"
  by (cases xs) auto

lemma hd_esc_tokens:
  "s \<noteq> [] \<Longrightarrow> hd (concat (map (esc_token E) s)) = (if hd s \<in> E then BACKSLASH else hd s)"
  by (cases s) (auto simp: esc_token_def char_defs)

lemma unescape_pass:
  assumes E: "BACKSLASH \<in> E" "c \<in> E" "c \<noteq> BACKSLASH"
    and tok: "esc_token E c = [BACKSLASH, z]" "z \<noteq> BACKSLASH"
    and other: "\<And>x. x \<in> E \<Longrightarrow> x \<noteq> c \<Longrightarrow> esc_token E x \<noteq> [BACKSLASH, z]"
    and safe: "\<And>w. w \<in> after_backslash s \<Longrightarrow> w \<notin> E \<Longrightarrow> w \<noteq> z"
  shows "replace2 BACKSLASH z [c] (concat (map (esc_token E) s))
           = concat (map (esc_token (E - {c})) s)"
  using safe
proof (induction s)
  case Nil
  then show ?case by simp
next
  case (Cons x s)
  have sub: "after_backslash s \<subseteq> after_backslash (x # s)"
    by (cases s) auto
  have IH: "replace2 BACKSLASH z [c] (concat (map (esc_token E) s))
           = concat (map (esc_token (E - {c})) s)"
    using Cons.IH Cons.prems sub by blast
  let ?rest = "concat (map (esc_token E) s)"
  show ?case
  proof (cases "x \<in> E")
    case False
    then have "esc_token E x = [x]" "esc_token (E - {c}) x = [x]" "x \<noteq> BACKSLASH"
      using E(1) by (auto simp: esc_token_def)
    then show ?thesis using IH by (simp add: replace2_skip)
  next
    case True
    consider (hit) "x = c" | (bs) "x = BACKSLASH" | (pair) "x \<noteq> c" "x \<noteq> BACKSLASH"
      by blast
    then show ?thesis
    proof cases
      case hit
      then have "esc_token E x = [BACKSLASH, z]" "esc_token (E - {c}) x = [c]"
        using tok(1) by (simp_all add: esc_token_def)
      then show ?thesis using IH by simp
    next
      case bs
      then have t: "esc_token E x = [BACKSLASH, BACKSLASH]"
        "esc_token (E - {c}) x = [BACKSLASH, BACKSLASH]"
        using E by (simp_all add: esc_token_def)
      have "?rest = [] \<or> hd ?rest \<noteq> z"
      proof (cases s)
        case Nil
        then show ?thesis by simp
      next
        case (Cons w s')
        then have w: "w \<in> after_backslash (x # s)" using bs by simp
        have "hd ?rest = (if w \<in> E then BACKSLASH else w)"
          using hd_esc_tokens [of s E] Cons by simp
        then show ?thesis using Cons.prems [OF w] tok(2) by auto
      qed
      then have "replace2 BACKSLASH z [c] (BACKSLASH # ?rest)
                   = BACKSLASH # replace2 BACKSLASH z [c] ?rest"
        by (rule replace2_lone)
      then show ?thesis using t IH tok(2) by simp
    next
      case pair
      then have same: "esc_token (E - {c}) x = esc_token E x"
        using True by (simp add: esc_token_def)
      have "\<exists>y. esc_token E x = [BACKSLASH, y] \<and> y \<noteq> BACKSLASH"
        using True pair by (simp add: esc_token_def char_defs)
      then obtain y where y: "esc_token E x = [BACKSLASH, y]" "y \<noteq> BACKSLASH"
        by blast
      have "y \<noteq> z" using other [OF True pair(1)] y by simp
      then show ?thesis using IH y same by (simp add: replace2_skip)
    qed
  qed
qed

lemma unescape_backslashes:
  "replace2 BACKSLASH BACKSLASH [BACKSLASH] (concat (map (esc_token {BACKSLASH}) s)) = s"
  by (induction s) (simp_all add: esc_token_def replace2_skip)

lemma unescape_escaped:
  assumes "of_char CHR ''n'' \<notin> after_backslash s"
    "of_char CHR ''t'' \<notin> after_backslash s"
    "of_char CHR ''r'' \<notin> after_backslash s"
  shows "unescape (concat (map (esc_token {BACKSLASH, DQUOTE, LF, TAB, CR}) s)) = s"
proof -
  have d: "{BACKSLASH, DQUOTE, LF, TAB, CR} - {LF} = {BACKSLASH, DQUOTE, TAB, CR}"
    "{BACKSLASH, DQUOTE, TAB, CR} - {TAB} = {BACKSLASH, DQUOTE, CR}"
    "{BACKSLASH, DQUOTE, CR} - {CR} = {BACKSLASH, DQUOTE}"
    "{BACKSLASH, DQUOTE} - {DQUOTE} = {BACKSLASH}"
    by (auto simp: char_defs)
  have "replace2 BACKSLASH (of_char CHR ''n'') [LF]
             (concat (map (esc_token {BACKSLASH, DQUOTE, LF, TAB, CR}) s))
           = concat (map (esc_token ({BACKSLASH, DQUOTE, LF, TAB, CR} - {LF})) s)"
    by (rule unescape_pass) (use assms(1) in \<open>auto simp: esc_token_def char_defs\<close>)
  then have 1: "replace2 BACKSLASH (of_char CHR ''n'') [LF]
             (concat (map (esc_token {BACKSLASH, DQUOTE, LF, TAB, CR}) s))
           = concat (map (esc_token {BACKSLASH, DQUOTE, TAB, CR}) s)"
    by (simp only: d)
  have "replace2 BACKSLASH (of_char CHR ''t'') [TAB]
             (concat (map (esc_token {BACKSLASH, DQUOTE, TAB, CR}) s))
           = concat (map (esc_token ({BACKSLASH, DQUOTE, TAB, CR} - {TAB})) s)"
    by (rule unescape_pass) (use assms(2) in \<open>auto simp: esc_token_def char_defs\<close>)
  then have 2: "replace2 BACKSLASH (of_char CHR ''t'') [TAB]
             (concat (map (esc_token {BACKSLASH, DQUOTE, TAB, CR}) s))
           = concat (map (esc_token {BACKSLASH, DQUOTE, CR}) s)"
    by (simp only: d)
  have "replace2 BACKSLASH (of_char CHR ''r'') [CR]
             (concat (map (esc_token {BACKSLASH, DQUOTE, CR}) s))
           = concat (map (esc_token ({BACKSLASH, DQUOTE, CR} - {CR})) s)"
    by (rule unescape_pass) (use assms(3) in \<open>auto simp: esc_token_def char_defs\<close>)
  then have 3: "replace2 BACKSLASH (of_char CHR ''r'') [CR]
             (concat (map (esc_token {BACKSLASH, DQUOTE, CR}) s))
           = concat (map (esc_token {BACKSLASH, DQUOTE}) s)"
    by (simp only: d)
  have "replace2 BACKSLASH DQUOTE [DQUOTE]
             (concat (map (esc_token {BACKSLASH, DQUOTE}) s))
           = concat (map (esc_token ({BACKSLASH, DQUOTE} - {DQUOTE})) s)"
    by (rule unescape_pass) (auto simp: esc_token_def char_defs)
  then have 4: "replace2 BACKSLASH DQUOTE [DQUOTE]
             (concat (map (esc_token {BACKSLASH, DQUOTE}) s))
           = concat (map (esc_token {BACKSLASH}) s)"
    by (simp only: d)
  show ?thesis
    unfolding unescape_def 1 2 3 4 by (rule unescape_backslashes)
qed

lemma extractString_escapeString_safe:
  assumes "of_char CHR ''n'' \<notin> after_backslash s"
    "of_char CHR ''t'' \<notin> after_backslash s"
    "of_char CHR ''r'' \<notin> after_backslash s"
    "0x2028 \<notin> set s" "0x2029 \<notin> set s"
  shows "extractString (escapeString s) = s"
proof -
  let ?e = "concat (map (esc_token {BACKSLASH, DQUOTE, LF, TAB, CR}) s)"
  have e: "escapeString s = [DQUOTE] @ ?e @ [DQUOTE]"
    using escape_tokens [of s] by (simp add: escapeString_def)
  have "\<not> list_ex isLineTerminator ?e"
    using assms(4,5)
    by (auto simp: list_ex_iff esc_token_def isLineTerminator_def char_defs split: if_splits)
  then have "match_quoted (escapeString s) = Some ?e"
    by (simp add: e match_quoted_def slice_inner_def)
  then show ?thesis
    by (simp add: extractString_def unescape_escaped [OF assms(1,2,3)])
qed

section \<open>Totality of the parser\<close>



section \<open>Status of the entries\<close>

text \<open>Claim C4: for every entry that \<open>parsePOFile\<close> returns, the status is \<open>pending\<close>
  exactly when \<open>msgstr\<close> is the empty string and \<open>translated\<close> otherwise; the status
  \<open>ai-suggested\<close> is never produced.\<close>

theorem parsePOFile_status:
  "\<forall>e \<in> set (entries (parsePOFile content)).
     (e_status e = Pending \<longleftrightarrow> e_msgstr e = []) \<and>
     (e_msgstr e \<noteq> [] \<longrightarrow> e_status e = Translated) \<and>
     e_status e \<noteq> AiSuggested"
proof -
  have "list_all (\<lambda>e. (e_status e = Pending \<longleftrightarrow> e_msgstr e = []) \<and>
     (e_msgstr e \<noteq> [] \<longrightarrow> e_status e = Translated) \<and>
     e_status e \<noteq> AiSuggested) (entries (parsePOFile content))"
    by (rule entries_parsePOFile_all) (simp add: make_entry_def)
  then show ?thesis by (simp add: list_all_iff)
qed

theorem parsePOFile_status_witness:
  "hello_plain \<in> set (entries (parsePOFile two_entries_input)) \<and>
   e_msgstr hello_plain \<noteq> [] \<and> e_status hello_plain = Translated \<and>
   hello_menu \<in> set (entries (parsePOFile two_entries_input)) \<and>
   e_msgstr hello_menu = [] \<and> e_status hello_menu = Pending"
  using parsePOFile_status [of two_entries_input]
  by (simp add: two_entries_parsed) (simp add: hello_plain_def hello_menu_def lit_def)

section \<open>Header blocks and entry blocks\<close>

text \<open>Claim C5: a block whose extracted \<open>msgid\<close> is empty adds no entry, and a block whose
  extracted \<open>msgid\<close> is not empty adds nothing to the headers.  This holds for one iteration
  of the loop from any accumulated catalog, and for the whole result: the entries come from
  the records with a non-empty \<open>msgid\<close> only, the headers from the others only.\<close>

theorem parsePOFile_header_isolation:
  "(\<forall>r. parseBlock block = Some r \<longrightarrow> r_msgid r = [] \<longrightarrow>
        entries (parsePOFile_block acc block) = entries acc) \<and>
   (\<forall>r. parseBlock block = Some r \<longrightarrow> r_msgid r \<noteq> [] \<longrightarrow>
        headers (parsePOFile_block acc block) = headers acc) \<and>
   entries (parsePOFile content) =
     map make_entry (filter (\<lambda>r. r_msgid r \<noteq> []) (raw_entries content)) \<and>
   headers (parsePOFile content) =
     foldl (\<lambda>h m. parseHeaders m h) []
       (map r_msgstr (filter (\<lambda>r. r_msgid r = []) (raw_entries content)))"
proof -
  have "\<forall>r. parseBlock block = Some r \<longrightarrow> r_msgid r = [] \<longrightarrow>
        entries (parsePOFile_block acc block) = entries acc"
    by (simp add: parsePOFile_block_def)
  moreover have "\<forall>r. parseBlock block = Some r \<longrightarrow> r_msgid r \<noteq> [] \<longrightarrow>
        headers (parsePOFile_block acc block) = headers acc"
    by (simp add: parsePOFile_block_def)
  ultimately show ?thesis
    using entries_parsePOFile [of content] headers_parsePOFile [of content]
    by (simp add: header_strings_def)
qed

theorem parsePOFile_header_isolation_witness:
  "parseBlock header_block = Some header_raw \<and> r_msgid header_raw = [] \<and>
   entries (parsePOFile_block some_catalog header_block) = entries some_catalog \<and>
   headers (parsePOFile_block some_catalog header_block)
     = [(lit ''Language'', lit ''es''), (lit ''X-Generator'', lit ''vi'')] \<and>
   parseBlock entry_block = Some entry_raw \<and> r_msgid entry_raw \<noteq> [] \<and>
   headers (parsePOFile_block some_catalog entry_block) = headers some_catalog \<and>
   entries (parsePOFile_block some_catalog entry_block) = [hello_menu, make_entry entry_raw]"
proof -
  have h: "r_msgid header_raw = []" and e: "r_msgid entry_raw \<noteq> []"
    by (simp_all add: header_raw_def entry_raw_def lit_def)
  have hs: "headers (parsePOFile_block some_catalog header_block)
     = [(lit ''Language'', lit ''es''), (lit ''X-Generator'', lit ''vi'')]"
    by (simp add: parsePOFile_block_def header_block_raw h)
       (simp add: header_block_def header_raw_def some_catalog_def eval_simps)
  have es: "entries (parsePOFile_block some_catalog entry_block) = [hello_menu, make_entry entry_raw]"
    by (simp add: parsePOFile_block_def entry_block_raw e)
       (simp add: entry_block_def some_catalog_def eval_simps)
  show ?thesis
    using parsePOFile_header_isolation [of header_block some_catalog]
      parsePOFile_header_isolation [of entry_block some_catalog]
      header_block_raw entry_block_raw h e hs es
    by simp
qed

subsection \<open>The headers mapping\<close>

















section \<open>Comments of a block\<close>

lemma startsWith_hash:
  "startsWith t (lit ''#.'') \<or> startsWith t (lit ''#:'') \<Longrightarrow> startsWith t (lit ''#'') \<and> t \<noteq> []"
  by (cases t) (auto simp: startsWith_def lit_def)

lemma comments_parseBlock_line:
  "comments (parseBlock_line st line) =
     comments st @ (if is_contributing line
                    then trim (slice_from 2 (trim line)) @ [SPACE] else [])"
proof (cases "is_contributing line")
  case True
  then have "startsWith (trim line) (lit ''#'')" and "trim line \<noteq> []"
    using startsWith_hash [of "trim line"] by (auto simp: is_contributing_def)
  with True show ?thesis
    by (auto simp: parseBlock_line_def Let_def is_contributing_def)
next
  case False
  then have no: "\<not> startsWith (trim line) (lit ''#.'')" "\<not> startsWith (trim line) (lit ''#:'')"
    by (auto simp: is_contributing_def)
  show ?thesis
    using False no
    by (simp add: parseBlock_line_def Let_def split: option.splits field.splits)
qed

lemma comments_foldl_parseBlock_line:
  "comments (foldl parseBlock_line st ls) =
     comments st @ concat (map (\<lambda>p. p @ [SPACE])
       (map (\<lambda>line. trim (slice_from 2 (trim line))) (filter is_contributing ls)))"
  by (induction ls arbitrary: st) (simp_all add: comments_parseBlock_line)

lemma concat_sep_join:
  "ps \<noteq> [] \<Longrightarrow> concat (map (\<lambda>p. p @ sep) ps) = join sep ps @ sep"
  by (induction sep ps rule: join.induct) simp_all

lemma trim_Nil: "trim [] = []"
  by (simp add: trim_def)

lemma trim_append_space: "isWhiteSpace c \<Longrightarrow> trim (s @ [c]) = trim s"
proof (cases "\<forall>x \<in> set s. isWhiteSpace x")
  case True
  assume c: "isWhiteSpace c"
  have e1: "dropWhile isWhiteSpace s = []"
    using True by (simp add: dropWhile_eq_Nil_conv)
  have e2: "dropWhile isWhiteSpace (s @ [c]) = []"
    using True c by (simp add: dropWhile_eq_Nil_conv)
  show ?thesis unfolding trim_def e1 e2 by (rule refl)
next
  case False
  assume c: "isWhiteSpace c"
  from False obtain x where "x \<in> set s" "\<not> isWhiteSpace x" by blast
  then have "dropWhile isWhiteSpace (s @ [c]) = dropWhile isWhiteSpace s @ [c]"
    by (simp add: dropWhile_append1)
  with c show ?thesis by (simp add: trim_def)
qed

lemma isWhiteSpace_SPACE: "isWhiteSpace SPACE"
  by (simp add: isWhiteSpace_def SPACE_def)

lemma trim_comment_buffer:
  "trim (concat (map (\<lambda>p. p @ [SPACE]) ps)) = trim (join [SPACE] ps)"
proof (cases "ps = []")
  case True
  then show ?thesis by simp
next
  case False
  then have "concat (map (\<lambda>p. p @ [SPACE]) ps) = join [SPACE] ps @ [SPACE]"
    by (rule concat_sep_join)
  then show ?thesis
    by (simp only: trim_append_space [OF isWhiteSpace_SPACE])
qed

text \<open>Claim C7: in a block only the comment lines that start with \<open>#.\<close> or \<open>#:\<close> add to the
  comments: the text after the two characters, trimmed, is added to the buffer with a single
  space between the pieces; flags, previous-id and translator comments and all other lines
  add nothing; without such a line the comments field is absent.  The field is the trimmed
  buffer, and absent when that is empty.\<close>

theorem parseBlock_comments:
  "(\<exists>r. parseBlock block = Some r \<and>
        r_comments r = or_undefined (trim (join [SPACE] (comment_payloads block))) \<and>
        (comment_payloads block = [] \<longrightarrow> r_comments r = None)) \<and>
   (\<forall>st line. is_contributing line \<longrightarrow>
        comments (parseBlock_line st line)
          = comments st @ trim (slice_from 2 (trim line)) @ [SPACE]) \<and>
   (\<forall>st line. \<not> is_contributing line \<longrightarrow>
        comments (parseBlock_line st line) = comments st)"
proof -
  have "comments (foldl parseBlock_line init_block_state (split_nl block))
          = concat (map (\<lambda>p. p @ [SPACE]) (comment_payloads block))"
    by (simp add: comments_foldl_parseBlock_line comment_payloads_def init_block_state_def)
  then have "trim (comments (foldl parseBlock_line init_block_state (split_nl block)))
          = trim (join [SPACE] (comment_payloads block))"
    by (simp add: trim_comment_buffer)
  then have field: "\<exists>r. parseBlock block = Some r \<and>
        r_comments r = or_undefined (trim (join [SPACE] (comment_payloads block))) \<and>
        (comment_payloads block = [] \<longrightarrow> r_comments r = None)"
    by (simp add: parseBlock_def Let_def or_undefined_def trim_Nil)
  have step: "\<forall>st line. is_contributing line \<longrightarrow>
        comments (parseBlock_line st line)
          = comments st @ trim (slice_from 2 (trim line)) @ [SPACE]"
    by (simp add: comments_parseBlock_line)
  have frame: "\<forall>st line. \<not> is_contributing line \<longrightarrow>
        comments (parseBlock_line st line) = comments st"
    by (simp add: comments_parseBlock_line)
  from field step frame show ?thesis by blast
qed

theorem parseBlock_comments_witness:
  "comment_payloads entry_block = [lit ''Greeting'', lit ''src/app.c:10''] \<and>
   parseBlock entry_block = Some entry_raw \<and>
   r_comments entry_raw = Some (lit ''Greeting src/app.c:10'') \<and>
   comment_payloads second_header_block = [] \<and>
   (\<exists>r. parseBlock second_header_block = Some r \<and> r_comments r = None) \<and>
   is_contributing (lit ''#: src/app.c:10'') \<and>
   comments (parseBlock_line (init_block_state\<lparr>comments := lit ''Greeting ''\<rparr>)
               (lit ''#: src/app.c:10''))
     = lit ''Greeting src/app.c:10 '' \<and>
   \<not> is_contributing (lit ''#, fuzzy'') \<and>
   comments (parseBlock_line (init_block_state\<lparr>comments := lit ''Greeting ''\<rparr>)
               (lit ''#, fuzzy''))
     = lit ''Greeting ''"
proof -
  note inst = parseBlock_comments [of second_header_block]
  have p: "comment_payloads entry_block = [lit ''Greeting'', lit ''src/app.c:10'']"
    by (simp add: comment_payloads_def is_contributing_def entry_block_def eval_simps)
  have q: "comment_payloads second_header_block = []"
    by (simp add: comment_payloads_def is_contributing_def second_header_block_def eval_simps)
  have c: "r_comments entry_raw = Some (lit ''Greeting src/app.c:10'')"
    by (simp add: entry_raw_def)
  have yes: "is_contributing (lit ''#: src/app.c:10'')"
    and no: "\<not> is_contributing (lit ''#, fuzzy'')"
    by (simp_all add: is_contributing_def eval_simps)
  have "\<exists>r. parseBlock second_header_block = Some r \<and> r_comments r = None"
    using inst q by auto
  moreover have "comments (parseBlock_line (init_block_state\<lparr>comments := lit ''Greeting ''\<rparr>)
               (lit ''#: src/app.c:10'')) = lit ''Greeting src/app.c:10 ''"
    using inst [THEN conjunct2, THEN conjunct1, rule_format, OF yes,
        of "init_block_state\<lparr>comments := lit ''Greeting ''\<rparr>"]
    by (simp add: eval_simps)
  moreover have "comments (parseBlock_line (init_block_state\<lparr>comments := lit ''Greeting ''\<rparr>)
               (lit ''#, fuzzy'')) = lit ''Greeting ''"
    using inst [THEN conjunct2, THEN conjunct2, rule_format, OF no,
        of "init_block_state\<lparr>comments := lit ''Greeting ''\<rparr>"]
    by simp
  ultimately show ?thesis using p q c yes no entry_block_raw by simp
qed

section \<open>Identifiers of the entries\<close>

lemma append_sep_cancel: "a @ s @ m = b @ s @ m \<longleftrightarrow> a = b"
  by (metis append_same_eq)

text \<open>Claim C8, amended: every entry that \<open>parsePOFile\<close> returns has the id made of its
  context (the empty string when the context is absent), an underscore and its \<open>msgid\<close>;
  two entries with the same \<open>msgid\<close> have different ids when their contexts differ after an
  absent context is read as the empty string.\<close>

theorem parsePOFile_id:
  "(\<forall>e \<in> set (entries (parsePOFile content)).
      e_id e = or_empty (e_context e) @ lit ''_'' @ e_msgid e) \<and>
   (\<forall>e1 \<in> set (entries (parsePOFile content)).
    \<forall>e2 \<in> set (entries (parsePOFile content)).
      e_msgid e1 = e_msgid e2 \<longrightarrow>
      or_empty (e_context e1) \<noteq> or_empty (e_context e2) \<longrightarrow>
      e_id e1 \<noteq> e_id e2)"
proof -
  have "list_all (\<lambda>e. e_id e = or_empty (e_context e) @ lit ''_'' @ e_msgid e)
          (entries (parsePOFile content))"
    by (rule entries_parsePOFile_all) (simp add: make_entry_def make_id_def)
  then have ids: "\<forall>e \<in> set (entries (parsePOFile content)).
      e_id e = or_empty (e_context e) @ lit ''_'' @ e_msgid e"
    by (simp add: list_all_iff)
  then show ?thesis
    by (auto simp: append_sep_cancel)
qed

theorem parsePOFile_id_witness:
  "hello_plain \<in> set (entries (parsePOFile two_entries_input)) \<and>
   hello_menu \<in> set (entries (parsePOFile two_entries_input)) \<and>
   e_msgid hello_plain = e_msgid hello_menu \<and>
   or_empty (e_context hello_plain) \<noteq> or_empty (e_context hello_menu) \<and>
   e_id hello_plain = or_empty (e_context hello_plain) @ lit ''_'' @ e_msgid hello_plain \<and>
   e_id hello_menu = or_empty (e_context hello_menu) @ lit ''_'' @ e_msgid hello_menu \<and>
   e_id hello_plain \<noteq> e_id hello_menu"
  using parsePOFile_id [of two_entries_input]
  by (simp add: two_entries_parsed) (simp add: hello_plain_def hello_menu_def lit_def or_empty_def)

text \<open>The claim as it was stated, for any two different context values, fails: an entry with
  the empty context and an entry without a context have different context values and the
  same id.\<close>

theorem parsePOFile_id_counterexample:
  "entries (parsePOFile empty_context_input) = [a_empty_context, a_no_context] \<and>
   e_msgid a_empty_context = e_msgid a_no_context \<and>
   e_context a_empty_context \<noteq> e_context a_no_context \<and>
   e_id a_empty_context = e_id a_no_context"
  by (simp add: empty_context_input_def a_empty_context_def a_no_context_def eval_simps)

section \<open>Suggestions\<close>

text \<open>Claim C9: for every response text \<open>parseTranslations\<close> returns at most three strings,
  none of them empty.\<close>

theorem parseTranslations_bounded:
  "length (parseTranslations content) \<le> 3 \<and>
   (\<forall>s \<in> set (parseTranslations content). s \<noteq> [])"
proof
  show "length (parseTranslations content) \<le> 3"
    by (simp add: parseTranslations_def)
next
  have "set (parseTranslations content)
          \<subseteq> set (filter (\<lambda>line. length line > 0) (map clean_line (split_nl content)))"
    unfolding parseTranslations_def by (rule set_take_subset)
  then show "\<forall>s \<in> set (parseTranslations content). s \<noteq> []"
    by auto
qed

theorem parseTranslations_bounded_witness:
  "parseTranslations suggestions_input = [lit ''Hola'', lit ''Buenas'', lit ''x''] \<and>
   length (parseTranslations suggestions_input) \<le> 3 \<and>
   lit ''Buenas'' \<in> set (parseTranslations suggestions_input) \<and> lit ''Buenas'' \<noteq> []"
proof -
  have ev: "parseTranslations suggestions_input = [lit ''Hola'', lit ''Buenas'', lit ''x'']"
    by (simp add: suggestions_input_def parseTranslations_def clean_line_def strip_bullet_def
        strip_numbering_def eval_simps)
  show ?thesis
    using parseTranslations_bounded [of suggestions_input]
    by (simp add: ev lit_def)
qed

section \<open>Editing a translation\<close>

text \<open>Claim C10: \<open>updateTranslation\<close> leaves the headers, the number and order of the entries
  and every entry with another id unchanged; an entry with the given id gets the new
  \<open>msgstr\<close> and the status \<open>translated\<close> when the new \<open>msgstr\<close> is not empty and \<open>pending\<close>
  otherwise, and keeps its id, \<open>msgid\<close>, context and comments.  Without a loaded catalog
  nothing changes.\<close>

theorem updateTranslation_frame:
  "(poData st = None \<longrightarrow> updateTranslation st ident newMsgstr = st) \<and>
   (\<forall>pd. poData st = Some pd \<longrightarrow>
     (\<exists>pd'. poData (updateTranslation st ident newMsgstr) = Some pd' \<and>
        headers pd' = headers pd \<and>
        length (entries pd') = length (entries pd) \<and>
        (\<forall>i < length (entries pd).
           (e_id (entries pd ! i) \<noteq> ident \<longrightarrow> entries pd' ! i = entries pd ! i) \<and>
           (e_id (entries pd ! i) = ident \<longrightarrow>
              e_msgstr (entries pd' ! i) = newMsgstr \<and>
              e_status (entries pd' ! i) = (if newMsgstr \<noteq> [] then Translated else Pending) \<and>
              e_id (entries pd' ! i) = e_id (entries pd ! i) \<and>
              e_msgid (entries pd' ! i) = e_msgid (entries pd ! i) \<and>
              e_context (entries pd' ! i) = e_context (entries pd ! i) \<and>
              e_comments (entries pd' ! i) = e_comments (entries pd ! i)))))"
  by (auto simp: updateTranslation_def with_translation_def split: option.splits)

theorem updateTranslation_frame_witness:
  "updateTranslation
     \<lparr>poData = Some \<lparr>headers = [(lit ''Language'', lit ''es'')],
                     entries = [hello_plain, hello_menu]\<rparr>,
      selectedEntry = None\<rparr> (lit ''menu_Hello'') (lit ''Hola'')
   = \<lparr>poData = Some \<lparr>headers = [(lit ''Language'', lit ''es'')],
                     entries = [hello_plain,
                                hello_menu\<lparr>e_msgstr := lit ''Hola'', e_status := Translated\<rparr>]\<rparr>,
      selectedEntry = None\<rparr>"
  using updateTranslation_frame
    [of "\<lparr>poData = Some \<lparr>headers = [(lit ''Language'', lit ''es'')],
                     entries = [hello_plain, hello_menu]\<rparr>,
      selectedEntry = None\<rparr>" "lit ''menu_Hello''" "lit ''Hola''"]
  by (simp add: updateTranslation_def with_translation_def hello_plain_def hello_menu_def lit_def)

end
